theory Spec2Isabelle
  imports Complex_Main "HOL-Library.AList"
begin

section \<open>Data model of \<open>src/limiter.py\<close>\<close>

text \<open>
  Python numbers (the \<open>int\<close> capacity, the \<open>float\<close> token counts, rates and timestamps)
  are idealised as \<^typ>\<open>real\<close>: the rounding and the overflow of floating-point
  arithmetic and the values \<open>nan\<close> and \<open>inf\<close> are not modelled. A Python \<open>dict\<close> is an association list in insertion
  order: \<^const>\<open>map_of\<close> reads a key, \<^const>\<open>AList.update\<close> assigns one (in place when
  the key is present, at the end otherwise), as \<open>d[k] = v\<close> does.
\<close>

datatype error =
    RateLimitExceeded string
  | KeyError string
  | TypeError
  | ValueError

text \<open>The dataclass \<open>Bucket\<close>: one entry of the state document.\<close>

record Bucket =
  tokens :: real
  last_refill :: real

text \<open>
  One value of the policy document, as \<open>json.load\<close> may return it: \<open>null\<close> or an object
  with numeric fields. An object written by \<open>set_limit\<close> has the fields \<open>capacity\<close> and
  \<open>refill_rate\<close>; an externally written document may hold \<open>{}\<close>, \<open>null\<close> or an object
  that lacks a field. Policy values of other JSON types (numbers, strings, arrays,
  booleans), fields that are not numbers and state entries that are not buckets are
  outside this model.
\<close>

datatype tool_config = JNull | JObj "(string \<times> real) list"

type_synonym config_doc = "(string \<times> tool_config) list"
type_synonym state_doc = "(string \<times> Bucket) list"

text \<open>
  The object \<open>RateLimiter\<close>: \<open>config\<close> and \<open>state\<close> are the in-memory dictionaries;
  \<open>config_file\<close> and \<open>state_file\<close> stand for the documents stored at the two paths
  (\<open>None\<close> when the file does not exist).
\<close>

record RateLimiter =
  config :: config_doc
  state :: state_doc
  config_file :: "config_doc option"
  state_file :: "state_doc option"

text \<open>Python truthiness of a policy value: \<open>None\<close> and \<open>{}\<close> are falsy.\<close>

fun truthy :: "tool_config \<Rightarrow> bool" where
  "truthy JNull = False"
| "truthy (JObj fs) = (fs \<noteq> [])"

text \<open>\<open>tool_config[k]\<close>: \<open>TypeError\<close> on \<open>None\<close>, \<open>KeyError\<close> on a missing field.\<close>

fun getitem :: "tool_config \<Rightarrow> string \<Rightarrow> error + real" where
  "getitem JNull k = Inl TypeError"
| "getitem (JObj fs) k = (case map_of fs k of None \<Rightarrow> Inl (KeyError k) | Some v \<Rightarrow> Inr v)"

section \<open>Loading and saving\<close>

definition load_config :: "config_doc option \<Rightarrow> config_doc" where
  "load_config f = (case f of Some d \<Rightarrow> d | None \<Rightarrow> [])"

definition load_state :: "state_doc option \<Rightarrow> state_doc" where
  "load_state f = (case f of Some d \<Rightarrow> d | None \<Rightarrow> [])"

definition init :: "config_doc option \<Rightarrow> state_doc option \<Rightarrow> RateLimiter" where
  "init cf sf =
     \<lparr>config = load_config cf, state = load_state sf, config_file = cf, state_file = sf\<rparr>"

definition save_config :: "RateLimiter \<Rightarrow> RateLimiter" where
  "save_config l = l\<lparr>config_file := Some (config l)\<rparr>"

definition save_state :: "RateLimiter \<Rightarrow> RateLimiter" where
  "save_state l = l\<lparr>state_file := Some (state l)\<rparr>"

section \<open>The bucket engine\<close>

definition get_bucket_key :: "string \<Rightarrow> string \<Rightarrow> string" where
  "get_bucket_key tool user = tool @ '':'' @ user"

text \<open>
  \<open>_refill_bucket\<close>. The clock \<open>time.time()\<close> is read once on either path and is the
  argument \<open>now\<close>. The result is the raised error or \<open>()\<close>, with the limiter as the call
  leaves it.
\<close>

definition refill_bucket ::
  "string \<Rightarrow> string \<Rightarrow> real \<Rightarrow> RateLimiter \<Rightarrow> (error + unit) \<times> RateLimiter" where
  "refill_bucket tool user now l =
     (let bucket_key = get_bucket_key tool user in
      case map_of (config l) tool of
        None \<Rightarrow> (Inr (), l)
      | Some tc \<Rightarrow>
          if \<not> truthy tc then (Inr (), l)
          else
            (case getitem tc ''capacity'' of
               Inl e \<Rightarrow> (Inl e, l)
             | Inr c \<Rightarrow>
                 (case getitem tc ''refill_rate'' of
                    Inl e \<Rightarrow> (Inl e, l)
                  | Inr r \<Rightarrow>
                      (case map_of (state l) bucket_key of
                         None \<Rightarrow>
                           (Inr (),
                            l\<lparr>state := AList.update bucket_key
                                 \<lparr>tokens = c, last_refill = now\<rparr> (state l)\<rparr>)
                       | Some bucket \<Rightarrow>
                           (let elapsed = now - last_refill bucket;
                                new_tokens = tokens bucket + elapsed * r
                            in (Inr (),
                                l\<lparr>state := AList.update bucket_key
                                     \<lparr>tokens = min new_tokens c, last_refill = now\<rparr>
                                     (state l)\<rparr>))))))"

text \<open>\<open>check\<close>: the raised error or the returned boolean, and the limiter afterwards.\<close>

definition check ::
  "string \<Rightarrow> string \<Rightarrow> real \<Rightarrow> RateLimiter \<Rightarrow> (error + bool) \<times> RateLimiter" where
  "check tool user now l =
     (if map_of (config l) tool = None
      then (Inl (RateLimitExceeded (''Unknown tool: '' @ tool)), l)
      else
        (case refill_bucket tool user now l of
           (Inl e, l1) \<Rightarrow> (Inl e, l1)
         | (Inr u, l1) \<Rightarrow>
             (let bucket_key = get_bucket_key tool user in
              case map_of (state l1) bucket_key of
                None \<Rightarrow> (Inl (KeyError bucket_key), l1)
              | Some bucket \<Rightarrow>
                  if 1 \<le> tokens bucket
                  then (Inr True,
                        save_state (l1\<lparr>state := AList.update bucket_key
                                        (bucket\<lparr>tokens := tokens bucket - 1\<rparr>) (state l1)\<rparr>))
                  else (Inr False, l1))))"

definition set_limit :: "string \<Rightarrow> int \<Rightarrow> real \<Rightarrow> RateLimiter \<Rightarrow> RateLimiter" where
  "set_limit tool cap rate l =
     save_config (l\<lparr>config := AList.update tool
                      (JObj [(''capacity'', of_int cap), (''refill_rate'', rate)]) (config l)\<rparr>)"

definition reset :: "RateLimiter \<Rightarrow> RateLimiter" where
  "reset l = save_state (l\<lparr>state := []\<rparr>)"

section \<open>The status report\<close>

record tool_status =
  capacity :: real
  refill_rate :: real
  users :: "(string \<times> real) list"

type_synonym report = "(string \<times> tool_status) list"

text \<open>
  \<open>bucket_key.split(":", 1)\<close> unpacked into two names: the key is cut at its first colon;
  \<open>None\<close> is the \<open>ValueError\<close> of unpacking a key that has no colon.
\<close>

fun split_first :: "string \<Rightarrow> (string \<times> string) option" where
  "split_first [] = None"
| "split_first (c # cs) =
     (if c = CHR '':'' then Some ([], cs)
      else (case split_first cs of None \<Rightarrow> None | Some (t, u) \<Rightarrow> Some (c # t, u)))"

text \<open>The first loop of \<open>status\<close>, over the items of \<open>config\<close>.\<close>

fun status_tools :: "config_doc \<Rightarrow> report \<Rightarrow> error + report" where
  "status_tools [] result = Inr result"
| "status_tools ((tool, tc) # rest) result =
     (case getitem tc ''capacity'' of
        Inl e \<Rightarrow> Inl e
      | Inr c \<Rightarrow>
          (case getitem tc ''refill_rate'' of
             Inl e \<Rightarrow> Inl e
           | Inr r \<Rightarrow>
               status_tools rest
                 (AList.update tool \<lparr>capacity = c, refill_rate = r, users = []\<rparr> result)))"

text \<open>The second loop of \<open>status\<close>, over the items of \<open>state\<close>.\<close>

fun status_buckets :: "state_doc \<Rightarrow> report \<Rightarrow> error + report" where
  "status_buckets [] result = Inr result"
| "status_buckets ((bucket_key, bucket_data) # rest) result =
     (case split_first bucket_key of
        None \<Rightarrow> Inl ValueError
      | Some (tool, user) \<Rightarrow>
          (case map_of result tool of
             None \<Rightarrow> status_buckets rest result
           | Some ts \<Rightarrow>
               status_buckets rest
                 (AList.update tool
                    (ts\<lparr>users := AList.update user (tokens bucket_data) (users ts)\<rparr>) result)))"

definition status :: "RateLimiter \<Rightarrow> (error + report) \<times> RateLimiter" where
  "status l =
     (case status_tools (config l) [] of
        Inl e \<Rightarrow> (Inl e, l)
      | Inr result \<Rightarrow> (status_buckets (state l) result, l))"

section \<open>The command boundary (\<open>src/cli.py\<close>)\<close>

text \<open>
  \<open>cmd_check\<close> returns the exit code; only \<open>RateLimitExceeded\<close> is caught, any other
  exception leaves the function. The printed lines are not modelled.
\<close>

definition cmd_check ::
  "string \<Rightarrow> string \<Rightarrow> real \<Rightarrow> RateLimiter \<Rightarrow> (error + int) \<times> RateLimiter" where
  "cmd_check tool user now limiter =
     (case check tool user now limiter of
        (Inr allowed, l') \<Rightarrow> (if allowed then (Inr 0, l') else (Inr 1, l'))
      | (Inl (RateLimitExceeded e), l') \<Rightarrow> (Inr 2, l')
      | (Inl e, l') \<Rightarrow> (Inl e, l'))"

section \<open>Well-formed documents\<close>

text \<open>A policy that is a non-empty object with both fields.\<close>

fun well_formed :: "tool_config \<Rightarrow> bool" where
  "well_formed JNull = False"
| "well_formed (JObj fs) = (map_of fs ''capacity'' \<noteq> None \<and> map_of fs ''refill_rate'' \<noteq> None)"

section \<open>Auxiliary definitions\<close>

text \<open>
  Lines 93 to 98 of \<open>check\<close>: the decision taken on the bucket \<open>b1\<close> that the refill step
  left under \<open>bucket_key\<close> in the limiter \<open>l1\<close>.
\<close>

definition decide :: "string \<Rightarrow> Bucket \<Rightarrow> RateLimiter \<Rightarrow> (error + bool) \<times> RateLimiter" where
  "decide bucket_key b1 l1 =
     (if 1 \<le> tokens b1
      then (Inr True,
            save_state (l1\<lparr>state := AList.update bucket_key
                            (b1\<lparr>tokens := tokens b1 - 1\<rparr>) (state l1)\<rparr>))
      else (Inr False, l1))"

subsection \<open>Concrete limiters\<close>


text \<open>Two tools, one of them with a colon in its name, set up through \<open>set_limit\<close>.\<close>

definition colon_limiter :: RateLimiter where
  "colon_limiter = set_limit ''a:b'' 1 0 (set_limit ''a'' 1 0 (init None None))"

text \<open>An empty bucket stamped at time 0, under capacity 5 and rate 1; the documents agree.\<close>

definition ex_denied :: RateLimiter where
  "ex_denied =
     \<lparr>config = [(''t'', JObj [(''capacity'', 5), (''refill_rate'', 1)])],
      state = [(''t:u'', \<lparr>tokens = 0, last_refill = 0\<rparr>)],
      config_file = Some [(''t'', JObj [(''capacity'', 5), (''refill_rate'', 1)])],
      state_file = Some [(''t:u'', \<lparr>tokens = 0, last_refill = 0\<rparr>)]\<rparr>"

text \<open>A limiter started without documents, then given one policy through \<open>set_limit\<close>.\<close>

definition ex_fresh :: RateLimiter where
  "ex_fresh = set_limit ''t'' 5 1 (init None None)"

definition ex_zero :: RateLimiter where
  "ex_zero = set_limit ''t'' 0 0 (init None None)"

text \<open>A policy document edited by hand to \<open>{"t": {}}\<close>, beside a bucket created earlier.\<close>

definition ex_empty_policy :: RateLimiter where
  "ex_empty_policy =
     \<lparr>config = [(''t'', JObj [])],
      state = [(''t:u'', \<lparr>tokens = 3, last_refill = 0\<rparr>)],
      config_file = Some [(''t'', JObj [])],
      state_file = Some [(''t:u'', \<lparr>tokens = 3, last_refill = 0\<rparr>)]\<rparr>"

text \<open>Two tools set up through \<open>set_limit\<close>, after one admitted check of the first.\<close>

definition ex_two :: RateLimiter where
  "ex_two = snd (check ''tool1'' ''user1'' 0
                  (set_limit ''tool2'' 10 2 (set_limit ''tool1'' 5 1 (init None None))))"

text \<open>The first limiter after one admitted check: the bucket of \<open>("a", "u")\<close> is spent.\<close>

definition ex_spent :: RateLimiter where
  "ex_spent = snd (check ''a'' ''u'' 0 colon_limiter)"

section \<open>Basic facts\<close>

lemmas ex_simps = get_bucket_key_def check_def refill_bucket_def set_limit_def reset_def
  init_def load_config_def load_state_def save_config_def save_state_def Let_def

lemma getitem_not_unknown: "getitem tc k \<noteq> Inl (RateLimitExceeded m)"
  by (cases tc) (auto split: option.splits)

lemma refill_bucket_config: "config (snd (refill_bucket tool user now l)) = config l"
  unfolding refill_bucket_def
  by (auto simp: Let_def split: option.splits sum.splits)

lemma refill_bucket_files:
  "state_file (snd (refill_bucket tool user now l)) = state_file l
   \<and> config_file (snd (refill_bucket tool user now l)) = config_file l"
  unfolding refill_bucket_def
  by (auto simp: Let_def split: option.splits sum.splits)

lemma refill_bucket_not_unknown:
  "fst (refill_bucket tool user now l) \<noteq> Inl (RateLimitExceeded m)"
  unfolding refill_bucket_def
  by (auto simp: Let_def getitem_not_unknown split: option.splits sum.splits)

lemma refill_bucket_fresh:
  assumes "map_of (config l) tool = Some (JObj fs)"
    and "map_of fs ''capacity'' = Some c"
    and "map_of fs ''refill_rate'' = Some r"
    and "map_of (state l) (get_bucket_key tool user) = None"
  shows "refill_bucket tool user now l =
    (Inr (), l\<lparr>state := AList.update (get_bucket_key tool user)
                   \<lparr>tokens = c, last_refill = now\<rparr> (state l)\<rparr>)"
proof -
  from assms(2) have "fs \<noteq> []" by auto
  with assms show ?thesis by (simp add: refill_bucket_def)
qed

lemma refill_bucket_existing:
  assumes "map_of (config l) tool = Some (JObj fs)"
    and "map_of fs ''capacity'' = Some c"
    and "map_of fs ''refill_rate'' = Some r"
    and "map_of (state l) (get_bucket_key tool user) = Some b"
  shows "refill_bucket tool user now l =
    (Inr (), l\<lparr>state := AList.update (get_bucket_key tool user)
                   \<lparr>tokens = min (tokens b + (now - last_refill b) * r) c,
                    last_refill = now\<rparr> (state l)\<rparr>)"
proof -
  from assms(2) have "fs \<noteq> []" by auto
  with assms show ?thesis by (simp add: refill_bucket_def Let_def)
qed

lemma refill_bucket_falsy:
  assumes "map_of (config l) tool = Some tc" and "\<not> truthy tc"
  shows "refill_bucket tool user now l = (Inr (), l)"
  using assms by (simp add: refill_bucket_def)

lemma check_fresh:
  assumes "map_of (config l) tool = Some (JObj fs)"
    and "map_of fs ''capacity'' = Some c"
    and "map_of fs ''refill_rate'' = Some r"
    and "map_of (state l) (get_bucket_key tool user) = None"
  shows "check tool user now l =
    decide (get_bucket_key tool user) \<lparr>tokens = c, last_refill = now\<rparr>
      (l\<lparr>state := AList.update (get_bucket_key tool user)
                   \<lparr>tokens = c, last_refill = now\<rparr> (state l)\<rparr>)"
  using assms refill_bucket_fresh [OF assms, of now]
  by (simp add: check_def decide_def Let_def AList.update_conv')

lemma check_existing:
  assumes "map_of (config l) tool = Some (JObj fs)"
    and "map_of fs ''capacity'' = Some c"
    and "map_of fs ''refill_rate'' = Some r"
    and "map_of (state l) (get_bucket_key tool user) = Some b"
  shows "check tool user now l =
    decide (get_bucket_key tool user)
      \<lparr>tokens = min (tokens b + (now - last_refill b) * r) c, last_refill = now\<rparr>
      (l\<lparr>state := AList.update (get_bucket_key tool user)
                   \<lparr>tokens = min (tokens b + (now - last_refill b) * r) c,
                    last_refill = now\<rparr> (state l)\<rparr>)"
  using assms refill_bucket_existing [OF assms, of now]
  by (simp add: check_def decide_def Let_def AList.update_conv')

lemma check_policy_cong:
  assumes "map_of (config l1) tool = map_of (config l2) tool" and "state l1 = state l2"
  shows "fst (check tool user now l1) = fst (check tool user now l2)
       \<and> state (snd (check tool user now l1)) = state (snd (check tool user now l2))"
  using assms
  by (auto simp: check_def refill_bucket_def Let_def save_state_def AList.update_conv'
      split: option.splits sum.splits)

lemma well_formed_lookup:
  assumes "list_all (\<lambda>p. well_formed (snd p)) cfg" and "map_of cfg tool = Some tc"
  shows "\<exists>fs c r. tc = JObj fs \<and> map_of fs ''capacity'' = Some c
           \<and> map_of fs ''refill_rate'' = Some r"
proof -
  from assms(2) have "(tool, tc) \<in> set cfg" by (rule map_of_SomeD)
  with assms(1) have "well_formed tc" by (auto simp: list_all_iff)
  then show ?thesis by (cases tc) auto
qed

section \<open>The two loops of the status report\<close>

lemma split_first_append:
  "CHR '':'' \<notin> set t \<Longrightarrow> split_first (t @ '':'' @ u) = Some (t, u)"
  by (induction t) auto

lemma split_first_SomeD:
  "split_first k = Some (t, u) \<Longrightarrow> k = t @ '':'' @ u \<and> CHR '':'' \<notin> set t"
  by (induction k arbitrary: t) (auto split: if_splits option.splits)

lemma split_first_colon:
  "CHR '':'' \<in> set k \<Longrightarrow> \<exists>t u. split_first k = Some (t, u)"
  by (induction k) auto

lemma status_tools_ok:
  assumes "list_all (\<lambda>p. well_formed (snd p)) cfg" and "distinct (map fst cfg)"
  shows "\<exists>rep'. status_tools cfg rep = Inr rep'
     \<and> (\<forall>tool. case map_of cfg tool of
                  None \<Rightarrow> map_of rep' tool = map_of rep tool
                | Some tc \<Rightarrow> (\<exists>fs c r. tc = JObj fs \<and> map_of fs ''capacity'' = Some c
                     \<and> map_of fs ''refill_rate'' = Some r
                     \<and> map_of rep' tool = Some \<lparr>capacity = c, refill_rate = r, users = []\<rparr>))"
  using assms
proof (induction cfg arbitrary: rep)
  case Nil
  then show ?case by simp
next
  case (Cons p cfg)
  obtain t0 tc0 where p: "p = (t0, tc0)" by (cases p)
  from Cons.prems p have "well_formed tc0" by simp
  then obtain fs c r where tc0: "tc0 = JObj fs" "map_of fs ''capacity'' = Some c"
      "map_of fs ''refill_rate'' = Some r"
    by (cases tc0) auto
  let ?rep1 = "AList.update t0 \<lparr>capacity = c, refill_rate = r, users = []\<rparr> rep"
  from Cons.prems p have wf: "list_all (\<lambda>p. well_formed (snd p)) cfg"
    and d: "distinct (map fst cfg)" and fresh: "map_of cfg t0 = None"
    by (auto simp: map_of_eq_None_iff)
  from Cons.IH [OF wf d, of ?rep1] obtain rep' where
    r: "status_tools cfg ?rep1 = Inr rep'"
    and ih: "\<And>tool. case map_of cfg tool of
                  None \<Rightarrow> map_of rep' tool = map_of ?rep1 tool
                | Some tc \<Rightarrow> (\<exists>fs c r. tc = JObj fs \<and> map_of fs ''capacity'' = Some c
                     \<and> map_of fs ''refill_rate'' = Some r
                     \<and> map_of rep' tool = Some \<lparr>capacity = c, refill_rate = r, users = []\<rparr>)"
    by blast
  have run: "status_tools (p # cfg) rep = Inr rep'"
    using p tc0 r by simp
  have "case map_of (p # cfg) tool of
                  None \<Rightarrow> map_of rep' tool = map_of rep tool
                | Some tc \<Rightarrow> (\<exists>fs c r. tc = JObj fs \<and> map_of fs ''capacity'' = Some c
                     \<and> map_of fs ''refill_rate'' = Some r
                     \<and> map_of rep' tool = Some \<lparr>capacity = c, refill_rate = r, users = []\<rparr>)"
    for tool
  proof (cases "tool = t0")
    case True
    with ih [of t0] fresh p tc0 show ?thesis by (simp add: AList.update_conv')
  next
    case False
    with ih [of tool] p show ?thesis
      by (auto simp: AList.update_conv' split: option.splits)
  qed
  with run show ?case by blast
qed

lemma status_buckets_ok:
  assumes "list_all (\<lambda>p. CHR '':'' \<in> set (fst p)) st" and "distinct (map fst st)"
  shows "\<exists>rep'. status_buckets st rep = Inr rep'
     \<and> (\<forall>tool. case map_of rep tool of
                  None \<Rightarrow> map_of rep' tool = None
                | Some ts \<Rightarrow> (\<exists>ts'. map_of rep' tool = Some ts'
                     \<and> capacity ts' = capacity ts \<and> refill_rate ts' = refill_rate ts
                     \<and> (\<forall>user. map_of (users ts') user =
                          (case (if CHR '':'' \<in> set tool then None
                                 else map_of st (tool @ '':'' @ user)) of
                             None \<Rightarrow> map_of (users ts) user
                           | Some b \<Rightarrow> Some (tokens b)))))"
  using assms
proof (induction st arbitrary: rep)
  case Nil
  then show ?case by (auto split: option.splits)
next
  case (Cons p st)
  obtain k b where p: "p = (k, b)" by (cases p)
  from Cons.prems p have "CHR '':'' \<in> set k" by simp
  then obtain t0 u0 where sp: "split_first k = Some (t0, u0)"
    using split_first_colon by blast
  then have k: "k = t0 @ '':'' @ u0" and t0: "CHR '':'' \<notin> set t0"
    using split_first_SomeD by blast+
  from Cons.prems p have cs: "list_all (\<lambda>p. CHR '':'' \<in> set (fst p)) st"
    and d: "distinct (map fst st)" and fresh: "map_of st k = None"
    by (auto simp: map_of_eq_None_iff)
  have uniq: "tool = t0 \<and> user = u0"
    if "CHR '':'' \<notin> set tool" "k = tool @ '':'' @ user" for tool user
    using split_first_append [OF that(1), of user] sp that(2) by simp
  show ?case
  proof (cases "map_of rep t0")
    case None
    from Cons.IH [OF cs d, of rep] obtain rep' where
      r: "status_buckets st rep = Inr rep'"
      and ih: "\<And>tool. case map_of rep tool of
                  None \<Rightarrow> map_of rep' tool = None
                | Some ts \<Rightarrow> (\<exists>ts'. map_of rep' tool = Some ts'
                     \<and> capacity ts' = capacity ts \<and> refill_rate ts' = refill_rate ts
                     \<and> (\<forall>user. map_of (users ts') user =
                          (case (if CHR '':'' \<in> set tool then None
                                 else map_of st (tool @ '':'' @ user)) of
                             None \<Rightarrow> map_of (users ts) user
                           | Some b \<Rightarrow> Some (tokens b))))"
      by blast
    have run: "status_buckets (p # st) rep = Inr rep'"
      using p sp None r by simp
    have "case map_of rep tool of
                  None \<Rightarrow> map_of rep' tool = None
                | Some ts \<Rightarrow> (\<exists>ts'. map_of rep' tool = Some ts'
                     \<and> capacity ts' = capacity ts \<and> refill_rate ts' = refill_rate ts
                     \<and> (\<forall>user. map_of (users ts') user =
                          (case (if CHR '':'' \<in> set tool then None
                                 else map_of (p # st) (tool @ '':'' @ user)) of
                             None \<Rightarrow> map_of (users ts) user
                           | Some b \<Rightarrow> Some (tokens b))))" for tool
    proof (cases "map_of rep tool")
      case None
      with ih [of tool] show ?thesis by simp
    next
      case (Some ts)
      with \<open>map_of rep t0 = None\<close> have ne: "tool \<noteq> t0" by auto
      have "map_of (p # st) (tool @ '':'' @ user) = map_of st (tool @ '':'' @ user)"
        if "CHR '':'' \<notin> set tool" for user
        using uniq [OF that, of user] ne p by auto
      with ih [of tool] Some show ?thesis by auto
    qed
    with run show ?thesis by blast
  next
    case (Some ts0)
    let ?ts0 = "ts0\<lparr>users := AList.update u0 (tokens b) (users ts0)\<rparr>"
    let ?rep1 = "AList.update t0 ?ts0 rep"
    from Cons.IH [OF cs d, of ?rep1] obtain rep' where
      r: "status_buckets st ?rep1 = Inr rep'"
      and ih: "\<And>tool. case map_of ?rep1 tool of
                  None \<Rightarrow> map_of rep' tool = None
                | Some ts \<Rightarrow> (\<exists>ts'. map_of rep' tool = Some ts'
                     \<and> capacity ts' = capacity ts \<and> refill_rate ts' = refill_rate ts
                     \<and> (\<forall>user. map_of (users ts') user =
                          (case (if CHR '':'' \<in> set tool then None
                                 else map_of st (tool @ '':'' @ user)) of
                             None \<Rightarrow> map_of (users ts) user
                           | Some b \<Rightarrow> Some (tokens b))))"
      by blast
    have run: "status_buckets (p # st) rep = Inr rep'"
      using p sp Some r by simp
    have "case map_of rep tool of
                  None \<Rightarrow> map_of rep' tool = None
                | Some ts \<Rightarrow> (\<exists>ts'. map_of rep' tool = Some ts'
                     \<and> capacity ts' = capacity ts \<and> refill_rate ts' = refill_rate ts
                     \<and> (\<forall>user. map_of (users ts') user =
                          (case (if CHR '':'' \<in> set tool then None
                                 else map_of (p # st) (tool @ '':'' @ user)) of
                             None \<Rightarrow> map_of (users ts) user
                           | Some b \<Rightarrow> Some (tokens b))))" for tool
    proof (cases "tool = t0")
      case True
      from ih [of t0] obtain ts' where
        ts': "map_of rep' t0 = Some ts'" "capacity ts' = capacity ts0"
          "refill_rate ts' = refill_rate ts0"
        and us: "\<And>user. map_of (users ts') user =
                 (case map_of st (t0 @ '':'' @ user) of
                    None \<Rightarrow> map_of (users ?ts0) user
                  | Some b \<Rightarrow> Some (tokens b))"
        using t0 by (auto simp: AList.update_conv')
      have "map_of (users ts') user =
                 (case map_of (p # st) (t0 @ '':'' @ user) of
                    None \<Rightarrow> map_of (users ts0) user
                  | Some b \<Rightarrow> Some (tokens b))" for user
      proof (cases "user = u0")
        case True
        with us [of u0] fresh k p show ?thesis by (simp add: AList.update_conv')
      next
        case False
        then have "t0 @ '':'' @ user \<noteq> k" using k by simp
        with us [of user] False p show ?thesis
          by (auto simp: AList.update_conv' split: option.splits)
      qed
      with ts' True Some t0 show ?thesis by simp
    next
      case False
      have same: "map_of (p # st) (tool @ '':'' @ user) = map_of st (tool @ '':'' @ user)"
        if "CHR '':'' \<notin> set tool" for user
        using uniq [OF that, of user] False p by auto
      have same': "(if CHR '':'' \<in> set tool then None
                    else map_of (p # st) (tool @ '':'' @ user))
                 = (if CHR '':'' \<in> set tool then None
                    else map_of st (tool @ '':'' @ user))" for user
      proof (cases "CHR '':'' \<in> set tool")
        case True
        then show ?thesis by simp
      next
        case False
        from same [OF False, of user] False show ?thesis by (simp only: if_False)
      qed
      from False have eq: "map_of ?rep1 tool = map_of rep tool"
        by (simp add: AList.update_conv')
      show ?thesis
      proof (cases "map_of rep tool")
        case None
        with ih [of tool] eq show ?thesis by simp
      next
        case (Some ts)
        from ih [of tool] eq Some obtain ts' where
          a: "map_of rep' tool = Some ts'" "capacity ts' = capacity ts"
            "refill_rate ts' = refill_rate ts"
          and us: "\<And>user. map_of (users ts') user =
                          (case (if CHR '':'' \<in> set tool then None
                                 else map_of st (tool @ '':'' @ user)) of
                             None \<Rightarrow> map_of (users ts) user
                           | Some b \<Rightarrow> Some (tokens b))"
          by auto
        show ?thesis
          unfolding Some option.case same' using a us by blast
      qed
    qed
    with run show ?thesis by blast
  qed
qed

section \<open>The refill step under a clock regression\<close>




section \<open>Colons in identifiers\<close>

text \<open>
  C9: there are distinct (tool, user) pairs that share one bucket key, for instance
  \<open>("a", "b:c")\<close> and \<open>("a:b", "c")\<close>; a check on one pair then reads and debits the bucket
  of the other. With capacity 1 and rate 0 for both tools, each pair is admitted on a
  fresh limiter, but the second pair is denied once the first has been admitted.
\<close>

theorem bucket_key_collision:
  "(''a'', ''b:c'') \<noteq> (''a:b'', ''c'')
   \<and> get_bucket_key ''a'' ''b:c'' = get_bucket_key ''a:b'' ''c''
   \<and> fst (check ''a:b'' ''c'' 0 colon_limiter) = Inr True
   \<and> fst (check ''a'' ''b:c'' 0 colon_limiter) = Inr True
   \<and> fst (check ''a:b'' ''c'' 0 (snd (check ''a'' ''b:c'' 0 colon_limiter))) = Inr False"
  by (simp add: colon_limiter_def ex_simps)

section \<open>The range of the token count\<close>




section \<open>A denied check\<close>

text \<open>
  C3, as the specification states it: a denied check neither mutates nor persists bucket
  state. The refill step has already written the bucket in memory when the check is
  denied: an empty bucket stamped at 0, checked at time 1/2 under rate 1, is denied, and
  the limiter then holds 1/2 token stamped at 1/2 for it. The next admitted check of
  another user writes that bucket to the state document.
\<close>

theorem denied_check_mutates_counterexample:
  "fst (check ''t'' ''u'' (1/2) ex_denied) = Inr False
   \<and> state ex_denied = [(''t:u'', \<lparr>tokens = 0, last_refill = 0\<rparr>)]
   \<and> state (snd (check ''t'' ''u'' (1/2) ex_denied))
       = [(''t:u'', \<lparr>tokens = 1/2, last_refill = 1/2\<rparr>)]
   \<and> state_file (snd (check ''t'' ''v'' 1 (snd (check ''t'' ''u'' (1/2) ex_denied))))
       = Some [(''t:u'', \<lparr>tokens = 1/2, last_refill = 1/2\<rparr>),
               (''t:v'', \<lparr>tokens = 4, last_refill = 1\<rparr>)]"
  by (simp add: ex_denied_def ex_simps)

text \<open>
  C3, amended: a denied check persists nothing: the state document, the policy document and
  the policies are as before the call, so the durable state after a denied check equals the
  durable state before it. The limiter object is left as the refill step left it, with the
  refilled (or newly created) bucket in memory.
\<close>

theorem denied_check_not_persisted:
  assumes "fst (check tool user now l) = Inr False"
  shows "state_file (snd (check tool user now l)) = state_file l
       \<and> config_file (snd (check tool user now l)) = config_file l
       \<and> config (snd (check tool user now l)) = config l
       \<and> snd (check tool user now l) = snd (refill_bucket tool user now l)"
proof -
  obtain res l1 where r: "refill_bucket tool user now l = (res, l1)"
    by (cases "refill_bucket tool user now l")
  from assms r have "snd (check tool user now l) = l1"
    by (auto simp: check_def Let_def split: if_splits sum.splits option.splits)
  moreover have "state_file l1 = state_file l" "config_file l1 = config_file l" "config l1 = config l"
    using refill_bucket_files [of tool user now l] refill_bucket_config [of tool user now l] r
    by simp_all
  ultimately show ?thesis using r by simp
qed

theorem denied_check_not_persisted_witness:
  "fst (check ''t'' ''u'' (1/2) ex_denied) = Inr False
   \<and> state_file (snd (check ''t'' ''u'' (1/2) ex_denied)) = state_file ex_denied
   \<and> config_file (snd (check ''t'' ''u'' (1/2) ex_denied)) = config_file ex_denied
   \<and> config (snd (check ''t'' ''u'' (1/2) ex_denied)) = config ex_denied
   \<and> snd (check ''t'' ''u'' (1/2) ex_denied) = snd (refill_bucket ''t'' ''u'' (1/2) ex_denied)"
proof -
  have d: "fst (check ''t'' ''u'' (1/2) ex_denied) = Inr False"
    by (simp add: ex_denied_def ex_simps)
  from denied_check_not_persisted [OF d] d show ?thesis by blast
qed

section \<open>Unknown tools\<close>

text \<open>
  C4: check fails with \<open>RateLimitExceeded\<close> (the unknown-tool failure) exactly when the
  policy mapping has no entry for the tool; the limiter is then left as it was, with no
  bucket created or changed; \<open>cmd_check\<close> returns exit code 2 exactly for this failure and
  exit code 1 exactly for a denial.
\<close>

theorem unknown_tool_failure:
  "((\<exists>m. fst (check tool user now l) = Inl (RateLimitExceeded m))
      \<longleftrightarrow> map_of (config l) tool = None)
   \<and> (map_of (config l) tool = None \<longrightarrow>
        check tool user now l = (Inl (RateLimitExceeded (''Unknown tool: '' @ tool)), l)
        \<and> cmd_check tool user now l = (Inr 2, l))
   \<and> (fst (cmd_check tool user now l) = Inr 2 \<longleftrightarrow> map_of (config l) tool = None)
   \<and> (fst (cmd_check tool user now l) = Inr 1 \<longleftrightarrow> fst (check tool user now l) = Inr False)"
proof -
  have unk: "map_of (config l) tool = None \<Longrightarrow>
      check tool user now l = (Inl (RateLimitExceeded (''Unknown tool: '' @ tool)), l)"
    by (simp add: check_def)
  have known: "fst (check tool user now l) \<noteq> Inl (RateLimitExceeded m)"
    if "map_of (config l) tool \<noteq> None" for m
  proof -
    obtain res l1 where r: "refill_bucket tool user now l = (res, l1)"
      by (cases "refill_bucket tool user now l")
    have "res \<noteq> Inl (RateLimitExceeded m)"
      using refill_bucket_not_unknown [of tool user now l m] r by simp
    with that r show ?thesis
      by (auto simp: check_def Let_def split: sum.splits option.splits)
  qed
  have iff: "(\<exists>m. fst (check tool user now l) = Inl (RateLimitExceeded m))
      \<longleftrightarrow> map_of (config l) tool = None"
    using unk known by (cases "map_of (config l) tool = None") auto
  obtain res l' where c: "check tool user now l = (res, l')"
    by (cases "check tool user now l")
  have code2: "fst (cmd_check tool user now l) = Inr 2
      \<longleftrightarrow> (\<exists>m. fst (check tool user now l) = Inl (RateLimitExceeded m))"
    using c by (auto simp: cmd_check_def split: sum.splits error.splits)
  have code1: "fst (cmd_check tool user now l) = Inr 1 \<longleftrightarrow> fst (check tool user now l) = Inr False"
    using c by (auto simp: cmd_check_def split: sum.splits error.splits)
  show ?thesis
    using unk iff code2 code1 by (auto simp: cmd_check_def)
qed

theorem unknown_tool_failure_witness:
  "map_of (config ex_fresh) ''x'' = None
   \<and> check ''x'' ''u'' 0 ex_fresh = (Inl (RateLimitExceeded ''Unknown tool: x''), ex_fresh)
   \<and> cmd_check ''x'' ''u'' 0 ex_fresh = (Inr 2, ex_fresh)"
proof -
  have n: "map_of (config ex_fresh) ''x'' = None"
    by (simp add: ex_fresh_def ex_simps)
  from unknown_tool_failure [of "''x''" "''u''" 0 ex_fresh] n show ?thesis by simp
qed

section \<open>The first check of a pair\<close>

text \<open>
  C5: for a pair whose tool has a policy with both fields and a capacity of at least 1, and
  that has no bucket yet, the refill step creates the bucket with \<open>tokens = capacity\<close> and
  \<open>last_refill = now\<close> and does nothing else; check returns Allowed and leaves
  \<open>capacity - 1\<close> tokens, stamped \<open>now\<close>, in memory and in the state document, whatever
  the refill rate \<open>r\<close> is.
\<close>

theorem fresh_bucket_admitted:
  assumes "map_of (config l) tool = Some (JObj fs)"
    and "map_of fs ''capacity'' = Some c"
    and "map_of fs ''refill_rate'' = Some r"
    and "1 \<le> c"
    and "map_of (state l) (get_bucket_key tool user) = None"
  shows "refill_bucket tool user now l =
           (Inr (), l\<lparr>state := AList.update (get_bucket_key tool user)
                          \<lparr>tokens = c, last_refill = now\<rparr> (state l)\<rparr>)
       \<and> fst (check tool user now l) = Inr True
       \<and> map_of (state (snd (check tool user now l))) (get_bucket_key tool user)
           = Some \<lparr>tokens = c - 1, last_refill = now\<rparr>
       \<and> state_file (snd (check tool user now l)) = Some (state (snd (check tool user now l)))"
  using assms(4)
  by (simp add: refill_bucket_fresh [OF assms(1-3,5)] check_fresh [OF assms(1-3,5)]
      decide_def save_state_def AList.update_conv')

theorem fresh_bucket_admitted_witness:
  "map_of (config ex_fresh) ''t'' = Some (JObj [(''capacity'', 5), (''refill_rate'', 1)])
   \<and> map_of (state ex_fresh) (get_bucket_key ''t'' ''u'') = None
   \<and> (1::real) \<le> 5
   \<and> fst (check ''t'' ''u'' 3 ex_fresh) = Inr True
   \<and> map_of (state (snd (check ''t'' ''u'' 3 ex_fresh))) (get_bucket_key ''t'' ''u'')
       = Some \<lparr>tokens = 4, last_refill = 3\<rparr>"
proof -
  have cfg: "map_of (config ex_fresh) ''t'' = Some (JObj [(''capacity'', 5), (''refill_rate'', 1)])"
    by (simp add: ex_fresh_def ex_simps)
  have st: "map_of (state ex_fresh) (get_bucket_key ''t'' ''u'') = None"
    by (simp add: ex_fresh_def ex_simps)
  have c: "map_of [(''capacity'', 5::real), (''refill_rate'', 1)] ''capacity'' = Some 5"
    and r: "map_of [(''capacity'', 5::real), (''refill_rate'', 1)] ''refill_rate'' = Some 1"
    and g: "(1::real) \<le> 5"
    by simp_all
  from fresh_bucket_admitted [OF cfg c r g st, of 3] cfg st show ?thesis by simp
qed

section \<open>Changing a limit\<close>

text \<open>
  C6: \<open>set_limit\<close> stores the policy \<open>{capacity, refill_rate}\<close> for the tool, leaves the
  policies of the other tools, the buckets and the state document as they were, and writes
  the policy document. The new policy governs the next check of the tool, with no reset:
  its decision and the buckets it leaves are those of a limiter that holds the same
  buckets and the new policy alone, so nothing of the former policy enters; a pair without
  bucket is admitted exactly when the new capacity is at least 1.
\<close>

theorem set_limit_frame:
  "map_of (config (set_limit tool cap rate l)) tool
     = Some (JObj [(''capacity'', of_int cap), (''refill_rate'', rate)])
   \<and> (\<forall>t. t \<noteq> tool \<longrightarrow> map_of (config (set_limit tool cap rate l)) t = map_of (config l) t)
   \<and> config_file (set_limit tool cap rate l) = Some (config (set_limit tool cap rate l))
   \<and> state (set_limit tool cap rate l) = state l
   \<and> state_file (set_limit tool cap rate l) = state_file l
   \<and> fst (check tool user now (set_limit tool cap rate l))
       = fst (check tool user now
               (l\<lparr>config := [(tool, JObj [(''capacity'', of_int cap), (''refill_rate'', rate)])]\<rparr>))
   \<and> state (snd (check tool user now (set_limit tool cap rate l)))
       = state (snd (check tool user now
               (l\<lparr>config := [(tool, JObj [(''capacity'', of_int cap), (''refill_rate'', rate)])]\<rparr>)))
   \<and> (map_of (state l) (get_bucket_key tool user) = None \<longrightarrow>
        fst (check tool user now (set_limit tool cap rate l)) = Inr (1 \<le> cap))"
proof -
  let ?l = "set_limit tool cap rate l"
  let ?p = "JObj [(''capacity'', of_int cap), (''refill_rate'', rate)]"
  let ?n = "l\<lparr>config := [(tool, ?p)]\<rparr>"
  have cfg: "map_of (config ?l) tool = Some ?p"
    by (simp add: set_limit_def save_config_def AList.update_conv')
  have other: "\<forall>t. t \<noteq> tool \<longrightarrow> map_of (config ?l) t = map_of (config l) t"
    by (simp add: set_limit_def save_config_def AList.update_conv')
  have frame: "config_file ?l = Some (config ?l)" "state ?l = state l"
      "state_file ?l = state_file l"
    by (simp_all add: set_limit_def save_config_def)
  have same: "map_of (config ?l) tool = map_of (config ?n) tool" "state ?l = state ?n"
    using cfg frame by simp_all
  note cong = check_policy_cong [OF same, of user now]
  have fresh: "fst (check tool user now ?l) = Inr (1 \<le> cap)"
    if n: "map_of (state l) (get_bucket_key tool user) = None"
  proof -
    have c1: "map_of [(''capacity'', of_int cap), (''refill_rate'', rate)] ''capacity''
        = Some (of_int cap :: real)" by simp
    have c2: "map_of [(''capacity'', of_int cap :: real), (''refill_rate'', rate)] ''refill_rate''
        = Some rate" by simp
    from n have "map_of (state ?l) (get_bucket_key tool user) = None"
      using frame by simp
    from check_fresh [OF cfg c1 c2 this, of now] show ?thesis
      by (simp add: decide_def)
  qed
  show ?thesis using cfg other frame cong fresh by blast
qed

theorem set_limit_frame_witness:
  "''a:b'' \<noteq> ''a''
   \<and> map_of (config (set_limit ''a'' 5 1 ex_spent)) ''a:b'' = map_of (config ex_spent) ''a:b''
   \<and> state ex_spent = [(''a:u'', \<lparr>tokens = 0, last_refill = 0\<rparr>)]
   \<and> state (set_limit ''a'' 5 1 ex_spent) = [(''a:u'', \<lparr>tokens = 0, last_refill = 0\<rparr>)]
   \<and> fst (check ''a'' ''u'' 5 ex_spent) = Inr False
   \<and> fst (check ''a'' ''u'' 5 (set_limit ''a'' 5 1 ex_spent)) = Inr True
   \<and> map_of (state ex_spent) (get_bucket_key ''a'' ''w'') = None
   \<and> fst (check ''a'' ''w'' 5 ex_spent) = Inr True
   \<and> fst (check ''a'' ''w'' 5 (set_limit ''a'' 0 1 ex_spent)) = Inr False"
proof -
  have ne: "''a:b'' \<noteq> ''a''" by simp
  have st: "state ex_spent = [(''a:u'', \<lparr>tokens = 0, last_refill = 0\<rparr>)]"
    by (simp add: ex_spent_def colon_limiter_def ex_simps)
  have old: "fst (check ''a'' ''u'' 5 ex_spent) = Inr False"
      "fst (check ''a'' ''w'' 5 ex_spent) = Inr True"
    by (simp_all add: ex_spent_def colon_limiter_def ex_simps)
  have new: "fst (check ''a'' ''u'' 5
       (ex_spent\<lparr>config := [(''a'', JObj [(''capacity'', of_int 5), (''refill_rate'', 1)])]\<rparr>))
       = Inr True"
    by (simp add: ex_spent_def colon_limiter_def ex_simps)
  have n: "map_of (state ex_spent) (get_bucket_key ''a'' ''w'') = None"
    using st by (simp add: get_bucket_key_def)
  note A = set_limit_frame [of "''a''" 5 1 ex_spent "''u''" 5]
  note B = set_limit_frame [of "''a''" 0 1 ex_spent "''w''" 5]
  from A ne have a1: "map_of (config (set_limit ''a'' 5 1 ex_spent)) ''a:b''
      = map_of (config ex_spent) ''a:b''"
    by blast
  from A st have a2: "state (set_limit ''a'' 5 1 ex_spent)
      = [(''a:u'', \<lparr>tokens = 0, last_refill = 0\<rparr>)]"
    by simp
  from A new have a3: "fst (check ''a'' ''u'' 5 (set_limit ''a'' 5 1 ex_spent)) = Inr True"
    by simp
  from B n have "fst (check ''a'' ''w'' 5 (set_limit ''a'' 0 1 ex_spent)) = Inr (1 \<le> (0::int))"
    by blast
  then have b1: "fst (check ''a'' ''w'' 5 (set_limit ''a'' 0 1 ex_spent)) = Inr False"
    by simp
  from ne a1 st a2 old a3 n b1 show ?thesis by blast
qed

section \<open>Reset\<close>

text \<open>
  C7, as the specification states it: after \<open>reset\<close>, a check of any pair that was denied
  before is allowed. \<open>set_limit\<close> accepts a capacity of 0; under it a pair is denied, and
  denied again right after \<open>reset\<close>. Likewise a pair that has used up its single token
  and was denied is denied after \<open>reset\<close> when the capacity has been set to 0 in between.
\<close>

theorem reset_zero_capacity_counterexample:
  "fst (check ''t'' ''u'' 0 ex_zero) = Inr False
   \<and> fst (check ''t'' ''u'' 0 (reset (snd (check ''t'' ''u'' 0 ex_zero)))) = Inr False
   \<and> fst (check ''a'' ''u'' 0 colon_limiter) = Inr True
   \<and> fst (check ''a'' ''u'' 0 (snd (check ''a'' ''u'' 0 colon_limiter))) = Inr False
   \<and> fst (check ''a'' ''u'' 0
            (reset (set_limit ''a'' 0 0
               (snd (check ''a'' ''u'' 0 (snd (check ''a'' ''u'' 0 colon_limiter)))))))
       = Inr False"
  by (simp add: ex_zero_def colon_limiter_def ex_simps)

text \<open>
  C7, amended: \<open>reset\<close> leaves no bucket, writes the empty mapping to the state document and
  leaves the policies and the policy document as they were; a check right after \<open>reset\<close>
  returns Allowed for every pair whose tool has a policy with both fields and a capacity
  of at least 1.
\<close>

theorem reset_restores:
  "state (reset l) = []
   \<and> state_file (reset l) = Some []
   \<and> config (reset l) = config l
   \<and> config_file (reset l) = config_file l
   \<and> (map_of (config l) tool = Some (JObj fs) \<and> map_of fs ''capacity'' = Some c
        \<and> map_of fs ''refill_rate'' = Some r \<and> 1 \<le> c
      \<longrightarrow> fst (check tool user now (reset l)) = Inr True)"
proof -
  have frame: "state (reset l) = []" "state_file (reset l) = Some []"
      "config (reset l) = config l" "config_file (reset l) = config_file l"
    by (simp_all add: reset_def save_state_def)
  have "fst (check tool user now (reset l)) = Inr True"
    if a: "map_of (config l) tool = Some (JObj fs)" "map_of fs ''capacity'' = Some c"
      "map_of fs ''refill_rate'' = Some r" and c: "1 \<le> c"
  proof -
    have 1: "map_of (config (reset l)) tool = Some (JObj fs)" using a frame by simp
    have 2: "map_of (state (reset l)) (get_bucket_key tool user) = None" using frame by simp
    from check_fresh [OF 1 a(2,3) 2, of now] c show ?thesis by (simp add: decide_def)
  qed
  with frame show ?thesis by blast
qed

theorem reset_restores_witness:
  "fst (check ''a'' ''u'' 0 (snd (check ''a'' ''u'' 0 colon_limiter))) = Inr False
   \<and> map_of (config (snd (check ''a'' ''u'' 0 (snd (check ''a'' ''u'' 0 colon_limiter))))) ''a''
       = Some (JObj [(''capacity'', 1), (''refill_rate'', 0)])
   \<and> (1::real) \<le> 1
   \<and> fst (check ''a'' ''u'' 0
            (reset (snd (check ''a'' ''u'' 0 (snd (check ''a'' ''u'' 0 colon_limiter))))))
       = Inr True"
proof -
  let ?l = "snd (check ''a'' ''u'' 0 (snd (check ''a'' ''u'' 0 colon_limiter)))"
  have d: "fst (check ''a'' ''u'' 0 (snd (check ''a'' ''u'' 0 colon_limiter))) = Inr False"
    by (simp add: colon_limiter_def ex_simps)
  have cfg: "map_of (config ?l) ''a'' = Some (JObj [(''capacity'', 1), (''refill_rate'', 0)])"
    by (simp add: colon_limiter_def ex_simps)
  from reset_restores [of ?l "''a''" "[(''capacity'', 1), (''refill_rate'', 0)]" 1 0 "''u''" 0] cfg d
  show ?thesis by simp
qed

section \<open>Empty and null policies\<close>

text \<open>
  C10, as stated: when the policy of a tool is \<open>{}\<close> or \<open>null\<close>, check returns no decision
  but raises a lookup error. That holds only for a pair without bucket: where the state
  holds a bucket for the pair, check skips the refill and decides on the stored count.
\<close>

theorem falsy_policy_existing_bucket_counterexample:
  "map_of (config ex_empty_policy) ''t'' = Some (JObj [])
   \<and> check ''t'' ''u'' 100 ex_empty_policy
       = (Inr True,
          ex_empty_policy\<lparr>state := [(''t:u'', \<lparr>tokens = 2, last_refill = 0\<rparr>)],
                          state_file := Some [(''t:u'', \<lparr>tokens = 2, last_refill = 0\<rparr>)]\<rparr>)"
  by (simp add: ex_empty_policy_def ex_simps)

text \<open>
  C10, amended: when the policy of a tool is \<open>{}\<close> or \<open>null\<close> and the pair has no bucket,
  check raises \<open>KeyError\<close> for the bucket key and leaves the limiter as it was (the refill
  step returns early without creating the bucket). When every stored policy is an object
  with the fields \<open>capacity\<close> and \<open>refill_rate\<close>, that lookup never fails: no check ends
  in the \<open>KeyError\<close> of its bucket key.
\<close>

theorem falsy_policy_lookup:
  "(map_of (config l) tool = Some tc \<and> (tc = JNull \<or> tc = JObj [])
      \<and> map_of (state l) (get_bucket_key tool user) = None
    \<longrightarrow> check tool user now l = (Inl (KeyError (get_bucket_key tool user)), l))
   \<and> (list_all (\<lambda>p. well_formed (snd p)) (config l')
    \<longrightarrow> fst (check tool' user' now' l') \<noteq> Inl (KeyError (get_bucket_key tool' user')))"
proof -
  have part1: "check tool user now l = (Inl (KeyError (get_bucket_key tool user)), l)"
    if "map_of (config l) tool = Some tc" "tc = JNull \<or> tc = JObj []"
      "map_of (state l) (get_bucket_key tool user) = None"
  proof -
    from that(2) have "\<not> truthy tc" by auto
    from refill_bucket_falsy [OF that(1) this, of user now] that show ?thesis
      by (simp add: check_def)
  qed
  have part2: "fst (check tool' user' now' l') \<noteq> Inl (KeyError (get_bucket_key tool' user'))"
    if wf: "list_all (\<lambda>p. well_formed (snd p)) (config l')"
  proof (cases "map_of (config l') tool'")
    case None
    then show ?thesis by (simp add: check_def)
  next
    case (Some tc')
    from well_formed_lookup [OF wf Some] obtain fs c r where
      p: "map_of (config l') tool' = Some (JObj fs)" "map_of fs ''capacity'' = Some c"
        "map_of fs ''refill_rate'' = Some r"
      using Some by auto
    show ?thesis
    proof (cases "map_of (state l') (get_bucket_key tool' user')")
      case None
      from check_fresh [OF p None, of now'] show ?thesis by (simp add: decide_def)
    next
      case (Some b)
      from check_existing [OF p Some, of now'] show ?thesis by (simp add: decide_def)
    qed
  qed
  from part1 part2 show ?thesis by blast
qed

theorem falsy_policy_lookup_witness:
  "map_of (config ex_empty_policy) ''t'' = Some (JObj [])
   \<and> map_of (state ex_empty_policy) (get_bucket_key ''t'' ''w'') = None
   \<and> check ''t'' ''w'' 100 ex_empty_policy = (Inl (KeyError ''t:w''), ex_empty_policy)
   \<and> list_all (\<lambda>p. well_formed (snd p)) (config ex_fresh)
   \<and> fst (check ''t'' ''u'' 0 ex_fresh) \<noteq> Inl (KeyError ''t:u'')"
proof -
  have cfg: "map_of (config ex_empty_policy) ''t'' = Some (JObj [])"
    and st: "map_of (state ex_empty_policy) (get_bucket_key ''t'' ''w'') = None"
    by (simp_all add: ex_empty_policy_def get_bucket_key_def)
  have wf: "list_all (\<lambda>p. well_formed (snd p)) (config ex_fresh)"
    by (simp add: ex_fresh_def ex_simps)
  from falsy_policy_lookup [of ex_empty_policy "''t''" "JObj []" "''w''" 100 ex_fresh "''t''" "''u''" 0]
    cfg st wf
  show ?thesis by (auto simp: get_bucket_key_def)
qed

section \<open>The status report of a limiter\<close>

text \<open>
  C8, as the specification states it: \<open>status\<close> reports, per user, the last persisted token
  counts. It reads the dictionary held in memory: after the denied check of the section
  above, the report gives 1/2 token for the user while the state document holds 0.
\<close>

theorem status_unpersisted_counterexample:
  "fst (status (snd (check ''t'' ''u'' (1/2) ex_denied)))
     = Inr [(''t'', \<lparr>capacity = 5, refill_rate = 1, users = [(''u'', 1/2)]\<rparr>)]
   \<and> state_file (snd (check ''t'' ''u'' (1/2) ex_denied))
     = Some [(''t:u'', \<lparr>tokens = 0, last_refill = 0\<rparr>)]"
  by (simp add: ex_denied_def status_def ex_simps)

text \<open>
  C8, amended: \<open>status\<close> is a pure read, it leaves the limiter as it is and performs no
  refill. When every policy is an object with \<open>capacity\<close> and \<open>refill_rate\<close> and every
  bucket key holds a colon (the dictionaries having distinct keys), it returns a report
  that has an entry exactly for the tools that have a policy, with the capacity and the
  refill rate of the policy and, per user, the token count that the limiter holds in
  memory under the key \<open>tool:user\<close>; a key is attributed by cutting it at its first colon
  only, so a tool whose name holds a colon is reported without users. The dictionary in
  memory is the state document when the limiter has just been loaded.
\<close>

theorem status_report:
  assumes "list_all (\<lambda>p. well_formed (snd p)) (config l)"
    and "list_all (\<lambda>p. CHR '':'' \<in> set (fst p)) (state l)"
    and "distinct (map fst (config l))"
    and "distinct (map fst (state l))"
  shows "snd (status l) = l
     \<and> state (init cf sf) = load_state sf
     \<and> (\<exists>rep. fst (status l) = Inr rep
          \<and> (\<forall>tool. case map_of (config l) tool of
                None \<Rightarrow> map_of rep tool = None
              | Some tc \<Rightarrow>
                  (\<exists>fs c r ts. tc = JObj fs \<and> map_of fs ''capacity'' = Some c
                     \<and> map_of fs ''refill_rate'' = Some r
                     \<and> map_of rep tool = Some ts
                     \<and> capacity ts = c \<and> refill_rate ts = r
                     \<and> (\<forall>user. map_of (users ts) user =
                          (if CHR '':'' \<in> set tool then None
                           else map_option tokens
                                  (map_of (state l) (get_bucket_key tool user)))))))"
proof -
  have pure: "snd (status l) = l"
    by (simp add: status_def split: sum.splits)
  from status_tools_ok [OF assms(1,3), of "[]"] obtain rep0 where
    r0: "status_tools (config l) [] = Inr rep0"
    and t0: "\<And>tool. case map_of (config l) tool of
                  None \<Rightarrow> map_of rep0 tool = map_of [] tool
                | Some tc \<Rightarrow> (\<exists>fs c r. tc = JObj fs \<and> map_of fs ''capacity'' = Some c
                     \<and> map_of fs ''refill_rate'' = Some r
                     \<and> map_of rep0 tool = Some \<lparr>capacity = c, refill_rate = r, users = []\<rparr>)"
    by blast
  from status_buckets_ok [OF assms(2,4), of rep0] obtain rep where
    r1: "status_buckets (state l) rep0 = Inr rep"
    and t1: "\<And>tool. case map_of rep0 tool of
                  None \<Rightarrow> map_of rep tool = None
                | Some ts \<Rightarrow> (\<exists>ts'. map_of rep tool = Some ts'
                     \<and> capacity ts' = capacity ts \<and> refill_rate ts' = refill_rate ts
                     \<and> (\<forall>user. map_of (users ts') user =
                          (case (if CHR '':'' \<in> set tool then None
                                 else map_of (state l) (tool @ '':'' @ user)) of
                             None \<Rightarrow> map_of (users ts) user
                           | Some b \<Rightarrow> Some (tokens b))))"
    by blast
  have run: "fst (status l) = Inr rep"
    using r0 r1 by (simp add: status_def)
  have "case map_of (config l) tool of
                None \<Rightarrow> map_of rep tool = None
              | Some tc \<Rightarrow>
                  (\<exists>fs c r ts. tc = JObj fs \<and> map_of fs ''capacity'' = Some c
                     \<and> map_of fs ''refill_rate'' = Some r
                     \<and> map_of rep tool = Some ts
                     \<and> capacity ts = c \<and> refill_rate ts = r
                     \<and> (\<forall>user. map_of (users ts) user =
                          (if CHR '':'' \<in> set tool then None
                           else map_option tokens
                                  (map_of (state l) (get_bucket_key tool user)))))" for tool
  proof (cases "map_of (config l) tool")
    case None
    with t0 [of tool] t1 [of tool] show ?thesis by simp
  next
    case (Some tc)
    with t0 [of tool] obtain fs c r where
      p: "tc = JObj fs" "map_of fs ''capacity'' = Some c" "map_of fs ''refill_rate'' = Some r"
        "map_of rep0 tool = Some \<lparr>capacity = c, refill_rate = r, users = []\<rparr>"
      by auto
    let ?e = "\<lparr>capacity = c, refill_rate = r, users = []\<rparr>"
    have "\<exists>ts'. map_of rep tool = Some ts'
                     \<and> capacity ts' = capacity ?e \<and> refill_rate ts' = refill_rate ?e
                     \<and> (\<forall>user. map_of (users ts') user =
                          (case (if CHR '':'' \<in> set tool then None
                                 else map_of (state l) (tool @ '':'' @ user)) of
                             None \<Rightarrow> map_of (users ?e) user
                           | Some b \<Rightarrow> Some (tokens b)))"
      using t1 [of tool] unfolding p(4) option.case .
    then obtain ts where
      ts0: "map_of rep tool = Some ts" "capacity ts = capacity ?e"
        "refill_rate ts = refill_rate ?e"
      and us0: "\<And>user. map_of (users ts) user =
                          (case (if CHR '':'' \<in> set tool then None
                                 else map_of (state l) (tool @ '':'' @ user)) of
                             None \<Rightarrow> map_of (users ?e) user
                           | Some b \<Rightarrow> Some (tokens b))"
      by blast
    from ts0 have ts: "map_of rep tool = Some ts" "capacity ts = c" "refill_rate ts = r"
      by simp_all
    have us: "map_of (users ts) user =
                          (case (if CHR '':'' \<in> set tool then None
                                 else map_of (state l) (tool @ '':'' @ user)) of
                             None \<Rightarrow> None
                           | Some b \<Rightarrow> Some (tokens b))" for user
      using us0 [of user] by (simp split: option.splits)
    have "map_of (users ts) user =
            (if CHR '':'' \<in> set tool then None
             else map_option tokens (map_of (state l) (get_bucket_key tool user)))" for user
      using us [of user] by (auto simp: get_bucket_key_def split: option.splits)
    with Some p ts show ?thesis by simp
  qed
  moreover have "state (init cf sf) = load_state sf"
    by (simp add: init_def)
  ultimately show ?thesis using pure run by blast
qed

theorem status_report_witness:
  "list_all (\<lambda>p. well_formed (snd p)) (config ex_two)
   \<and> list_all (\<lambda>p. CHR '':'' \<in> set (fst p)) (state ex_two)
   \<and> distinct (map fst (config ex_two))
   \<and> distinct (map fst (state ex_two))
   \<and> snd (status ex_two) = ex_two
   \<and> (\<exists>rep ts. fst (status ex_two) = Inr rep \<and> map_of rep ''tool1'' = Some ts
         \<and> capacity ts = 5 \<and> refill_rate ts = 1 \<and> map_of (users ts) ''user1'' = Some 4)"
proof -
  have h: "list_all (\<lambda>p. well_formed (snd p)) (config ex_two)"
      "list_all (\<lambda>p. CHR '':'' \<in> set (fst p)) (state ex_two)"
      "distinct (map fst (config ex_two))"
      "distinct (map fst (state ex_two))"
    by (simp_all add: ex_two_def ex_simps)
  have cfg: "map_of (config ex_two) ''tool1''
      = Some (JObj [(''capacity'', 5), (''refill_rate'', 1)])"
    by (simp add: ex_two_def ex_simps)
  have st: "map_of (state ex_two) (get_bucket_key ''tool1'' ''user1'')
      = Some \<lparr>tokens = 4, last_refill = 0\<rparr>"
    by (simp add: ex_two_def ex_simps)
  from status_report [OF h] obtain rep where
    pure: "snd (status ex_two) = ex_two" and run: "fst (status ex_two) = Inr rep"
    and all: "\<And>tool. case map_of (config ex_two) tool of
                None \<Rightarrow> map_of rep tool = None
              | Some tc \<Rightarrow>
                  (\<exists>fs c r ts. tc = JObj fs \<and> map_of fs ''capacity'' = Some c
                     \<and> map_of fs ''refill_rate'' = Some r
                     \<and> map_of rep tool = Some ts
                     \<and> capacity ts = c \<and> refill_rate ts = r
                     \<and> (\<forall>user. map_of (users ts) user =
                          (if CHR '':'' \<in> set tool then None
                           else map_option tokens
                                  (map_of (state ex_two) (get_bucket_key tool user)))))"
    by blast
  from all [of "''tool1''"] cfg obtain ts where
    ts: "map_of rep ''tool1'' = Some ts" "capacity ts = 5" "refill_rate ts = 1"
    and us: "\<And>user. map_of (users ts) user
        = map_option tokens (map_of (state ex_two) (get_bucket_key ''tool1'' user))"
    by auto
  from us [of "''user1''"] st have "map_of (users ts) ''user1'' = Some 4" by simp
  with h pure run ts show ?thesis by blast
qed

end
